theory Spec2Isabelle
  imports Complex_Main
begin

section \<open>break-tracker: a shallow embedding of \<^verbatim>\<open>tracker.py\<close>\<close>

text \<open>
  The program polls a garage door, compares each polled state with the previous one and
  appends a row to a spreadsheet (or prints it, in dry-run mode) at every change.
  The embedding follows \<^verbatim>\<open>load_config\<close>, \<^verbatim>\<open>get_sheet\<close>, \<^verbatim>\<open>append_row\<close>, \<^verbatim>\<open>poll_loop\<close> and
  \<^verbatim>\<open>main\<close>. What the environment does (the configuration file, the spreadsheet service,
  the login, the result of \<^verbatim>\<open>door.update()\<close>, the clock, whether the worksheet accepts a
  row) is an input. A Python \<^verbatim>\<open>float\<close> is kept as the real number it denotes, and every
  float operation rounds its exact result to the nearest double.
\<close>

subsection \<open>Python's \<^verbatim>\<open>float\<close>: rounding to the nearest double\<close>

text \<open>Rounding to the nearest integer, ties to the even one.\<close>

definition round_half_even :: "real \<Rightarrow> int" where
  "round_half_even x =
     (let f = \<lfloor>x\<rfloor>; r = x - of_int f
      in if r < 1 / 2 then f else if 1 / 2 < r then f + 1 else if even f then f else f + 1)"

text \<open>\<^verbatim>\<open>int.bit_length\<close>: the number of binary digits.\<close>

fun bit_length :: "nat \<Rightarrow> nat" where
  "bit_length n = (if n = 0 then 0 else Suc (bit_length (n div 2)))"

text \<open>The binary exponent of \<open>y > 0\<close>: the \<open>e\<close> with \<open>2 powi e \<le> y < 2 powi (e + 1)\<close>.\<close>

definition exponent :: "real \<Rightarrow> int" where
  "exponent y =
     (if 1 \<le> y then int (bit_length (nat \<lfloor>y\<rfloor>)) - 1
      else (let k = bit_length (nat \<lfloor>1 / y\<rfloor>) - 1
            in if y * 2 ^ k = 1 then - int k else - int k - 1))"

text \<open>The nearest number with a significand of 53 binary digits, ties to the even
  significand: IEEE 754 binary64 rounding in the range of the normal numbers, where the
  durations of the program lie (no overflow and no subnormal numbers here).\<close>

definition round_double :: "real \<Rightarrow> real" where
  "round_double x =
     (if x = 0 then 0
      else (let u = 2 powi (exponent \<bar>x\<bar> - 52)
            in of_int (round_half_even (x / u)) * u))"

text \<open>\<^verbatim>\<open>a / b\<close> on two \<^verbatim>\<open>int\<close>s and on two \<^verbatim>\<open>float\<close>s (both correctly rounded; \<open>b\<close> is
  never zero in the program).\<close>

definition int_truediv :: "int \<Rightarrow> int \<Rightarrow> real" where
  "int_truediv a b = round_double (of_int a / of_int b)"

definition float_truediv :: "real \<Rightarrow> real \<Rightarrow> real" where
  "float_truediv a b = round_double (a / b)"

subsection \<open>Python's \<^verbatim>\<open>datetime\<close>: fields, difference, \<^verbatim>\<open>strftime\<close>\<close>

record datetime =
  year :: int
  month :: int
  day :: int
  hour :: int
  minute :: int
  second :: int
  microsecond :: int

definition is_leap :: "int \<Rightarrow> bool" where
  "is_leap y = (y mod 4 = 0 \<and> (y mod 100 \<noteq> 0 \<or> y mod 400 = 0))"

definition days_in_month :: "int \<Rightarrow> int \<Rightarrow> int" where
  "days_in_month y m =
     (if m = 2 \<and> is_leap y then 29
      else if 1 \<le> m \<and> m \<le> 12
           then [31, 28, 31, 30, 31, 30, 31, 31, 30, 31, 30, 31] ! nat (m - 1)
           else 0)"

text \<open>The range of the fields of a \<^verbatim>\<open>datetime\<close> object, with the four-digit years, on
  which every platform's \<^verbatim>\<open>%Y\<close> prints the same text.\<close>

definition valid_datetime :: "datetime \<Rightarrow> bool" where
  "valid_datetime d =
     (1000 \<le> year d \<and> year d \<le> 9999 \<and> 1 \<le> month d \<and> month d \<le> 12 \<and>
      1 \<le> day d \<and> day d \<le> days_in_month (year d) (month d) \<and>
      0 \<le> hour d \<and> hour d \<le> 23 \<and> 0 \<le> minute d \<and> minute d \<le> 59 \<and>
      0 \<le> second d \<and> second d \<le> 59 \<and> 0 \<le> microsecond d \<and> microsecond d \<le> 999999)"

definition days_before_year :: "int \<Rightarrow> int" where
  "days_before_year y = (let y1 = y - 1 in y1 * 365 + y1 div 4 - y1 div 100 + y1 div 400)"

definition days_before_month :: "int \<Rightarrow> int \<Rightarrow> int" where
  "days_before_month y m =
     (if 1 \<le> m \<and> m \<le> 12
      then [0, 31, 59, 90, 120, 151, 181, 212, 243, 273, 304, 334] ! nat (m - 1)
           + (if m > 2 \<and> is_leap y then 1 else 0)
      else 0)"

definition toordinal :: "datetime \<Rightarrow> int" where
  "toordinal d = days_before_year (year d) + days_before_month (year d) (month d) + day d"

text \<open>A \<^verbatim>\<open>timedelta\<close> is kept as its whole number of microseconds; the difference of two
  UTC datetimes is that of their ordinals, seconds of the day and microseconds.\<close>

type_synonym timedelta = int

definition datetime_sub :: "datetime \<Rightarrow> datetime \<Rightarrow> timedelta" where
  "datetime_sub a b =
     (let days1 = toordinal a; days2 = toordinal b;
          secs1 = second a + minute a * 60 + hour a * 3600;
          secs2 = second b + minute b * 60 + hour b * 3600
      in ((days1 - days2) * 86400 + (secs1 - secs2)) * 1000000
         + (microsecond a - microsecond b))"

text \<open>\<^verbatim>\<open>total_seconds\<close>: the microseconds divided by \<^verbatim>\<open>10**6\<close>, a division of two
  \<^verbatim>\<open>int\<close>s that returns a \<^verbatim>\<open>float\<close>.\<close>

definition total_seconds :: "timedelta \<Rightarrow> real" where
  "total_seconds td = int_truediv td 1000000"

subsection \<open>Decimal text\<close>

definition digit_char :: "nat \<Rightarrow> char" where
  "digit_char n = ''0123456789'' ! (n mod 10)"

fun str_nat :: "nat \<Rightarrow> string" where
  "str_nat n = (if n < 10 then [digit_char n] else str_nat (n div 10) @ [digit_char n])"

definition zfill :: "nat \<Rightarrow> string \<Rightarrow> string" where
  "zfill w s = replicate (w - length s) (CHR ''0'') @ s"

definition ljust :: "nat \<Rightarrow> string \<Rightarrow> string" where
  "ljust w s = s @ replicate (w - length s) (CHR '' '')"

definition rjust :: "nat \<Rightarrow> string \<Rightarrow> string" where
  "rjust w s = replicate (w - length s) (CHR '' '') @ s"

text \<open>\<^verbatim>\<open>now.strftime("%Y-%m-%d %H:%M:%S UTC")\<close>\<close>

definition strftime :: "datetime \<Rightarrow> string" where
  "strftime d =
     zfill 4 (str_nat (nat (year d))) @ ''-'' @ zfill 2 (str_nat (nat (month d))) @ ''-''
     @ zfill 2 (str_nat (nat (day d))) @ '' '' @ zfill 2 (str_nat (nat (hour d))) @ '':''
     @ zfill 2 (str_nat (nat (minute d))) @ '':'' @ zfill 2 (str_nat (nat (second d)))
     @ '' UTC''"

text \<open>\<^verbatim>\<open>f"{x:.1f}"\<close>: the sign, then the magnitude of the double \<open>x\<close> rounded to tenths,
  ties of its exact value to the even tenth.\<close>

definition format_1f :: "real \<Rightarrow> string" where
  "format_1f x =
     (let t = nat (round_half_even (\<bar>x\<bar> * 10))
      in (if x < 0 then ''-'' else '''') @ str_nat (t div 10) @ ''.'' @ [digit_char t])"

subsection \<open>\<^verbatim>\<open>append_row\<close>\<close>

datatype worksheet = Accepting | Failing

datatype exn = PollError | SinkWriteError

datatype sink_effect = Printed string | Appended "string list"

definition append_row ::
  "worksheet \<Rightarrow> string \<Rightarrow> string \<Rightarrow> real option \<Rightarrow> string \<Rightarrow> bool \<Rightarrow> exn + sink_effect" where
  "append_row sheet timestamp event duration_min notes dry_run =
     (let dur_str = (case duration_min of Some d \<Rightarrow> format_1f d | None \<Rightarrow> '''');
          row = [timestamp, event, dur_str, notes]
      in if dry_run
         then Inr (Printed (''[DRY RUN]  '' @ timestamp @ ''  '' @ ljust 6 event
                            @ ''  dur='' @ rjust 6 dur_str @ '' min  notes='' @ notes))
         else (case sheet of
                 Accepting \<Rightarrow> Inr (Appended row)
               | Failing \<Rightarrow> Inl SinkWriteError))"

subsection \<open>One iteration of the loop of \<^verbatim>\<open>poll_loop\<close>\<close>

record loop_state =
  prev_state :: "string option"
  last_open_time :: "datetime option"

text \<open>What the environment does in one iteration: \<^verbatim>\<open>door.update()\<close> raises, or the door
  reports a state, the clock a time, and the worksheet accepts or refuses a row. The state
  \<^verbatim>\<open>door.state\<close> is a text (\<^verbatim>\<open>"open"\<close>, \<^verbatim>\<open>"closed"\<close> or any other) or \<^verbatim>\<open>None\<close>, the
  value that \<^verbatim>\<open>prev_state\<close> also has before the first observation.\<close>

datatype env = UpdateRaises | Observed "string option" datetime worksheet

text \<open>The arguments of one call of \<^verbatim>\<open>append_row\<close>: the event emitted.\<close>

record event =
  timestamp :: string
  kind :: string
  duration_min :: "real option"
  "notes" :: string

text \<open>What one iteration did: the event it handed to \<^verbatim>\<open>append_row\<close>, what reached the
  sink, and the exception its \<^verbatim>\<open>except\<close> clause caught and logged.\<close>

record report =
  call :: "event option"
  effect :: "sink_effect option"
  caught :: "exn option"

definition silent :: report where
  "silent = \<lparr>call = None, effect = None, caught = None\<rparr>"

definition raised :: "event \<Rightarrow> exn \<Rightarrow> report" where
  "raised e x = \<lparr>call = Some e, effect = None, caught = Some x\<rparr>"

definition recorded :: "event \<Rightarrow> sink_effect \<Rightarrow> report" where
  "recorded e eff = \<lparr>call = Some e, effect = Some eff, caught = None\<rparr>"

text \<open>The body of the \<^verbatim>\<open>try\<close>. An exception leaves the assignments made before it and
  skips the rest of the body, \<^verbatim>\<open>prev_state = current_state\<close> included.\<close>

definition poll_iteration :: "bool \<Rightarrow> env \<Rightarrow> loop_state \<Rightarrow> loop_state \<times> report" where
  "poll_iteration dry_run e st =
     (case e of
        UpdateRaises \<Rightarrow> (st, \<lparr>call = None, effect = None, caught = Some PollError\<rparr>)
      | Observed current_state now sheet \<Rightarrow>
          (let ts = strftime now
           in if current_state \<noteq> prev_state st \<and> prev_state st \<noteq> None
              then if current_state = Some ''open''
                   then (let st1 = st\<lparr>last_open_time := Some now\<rparr>;
                             ev = \<lparr>timestamp = ts, kind = ''OPEN'', duration_min = None,
                                   notes = ''''\<rparr>
                         in case append_row sheet ts ''OPEN'' None '''' dry_run of
                              Inl x \<Rightarrow> (st1, raised ev x)
                            | Inr eff \<Rightarrow> (st1\<lparr>prev_state := current_state\<rparr>, recorded ev eff))
                   else if current_state = Some ''closed''
                   then (let duration_min =
                               (case last_open_time st of
                                  None \<Rightarrow> None
                                | Some t \<Rightarrow>
                                    Some (float_truediv (total_seconds (datetime_sub now t)) 60));
                             ev = \<lparr>timestamp = ts, kind = ''CLOSE'', duration_min = duration_min,
                                   notes = ''''\<rparr>
                         in case append_row sheet ts ''CLOSE'' duration_min '''' dry_run of
                              Inl x \<Rightarrow> (st, raised ev x)
                            | Inr eff \<Rightarrow>
                                (st\<lparr>last_open_time := None, prev_state := current_state\<rparr>,
                                 recorded ev eff))
                   else (st\<lparr>prev_state := current_state\<rparr>, silent)
              else (st\<lparr>prev_state := current_state\<rparr>, silent)))"

definition initial :: loop_state where
  "initial = \<lparr>prev_state = None, last_open_time = None\<rparr>"

text \<open>The \<^verbatim>\<open>try\<close> blocks of successive iterations of the \<^verbatim>\<open>while True\<close> loop, over a
  finite prefix of the environment's behaviour.\<close>

fun iterations :: "bool \<Rightarrow> loop_state \<Rightarrow> env list \<Rightarrow> loop_state \<times> report list" where
  "iterations dry_run st [] = (st, [])"
| "iterations dry_run st (e # es) =
     (let (st1, r) = poll_iteration dry_run e st;
          (st2, rs) = iterations dry_run st1 es
      in (st2, r # rs))"

subsection \<open>The configuration and the startup\<close>

text \<open>What \<^verbatim>\<open>yaml.safe_load\<close> returns (\<open>YNull\<close> for an empty file); a \<^verbatim>\<open>dict\<close> is the
  list of its items, a \<^verbatim>\<open>float\<close> is finite.\<close>

datatype yaml = YNull | YBool bool | YInt int | YFloat real | YStr string
  | YSeq "yaml list" | YMap "(string \<times> yaml) list"
















subsection \<open>Notions of the specification\<close>

text \<open>The events a run emitted, in order.\<close>

definition emitted :: "report list \<Rightarrow> event list" where
  "emitted rs = List.map_filter call rs"

text \<open>What reached the sink, in order.\<close>

definition written :: "report list \<Rightarrow> sink_effect list" where
  "written rs = List.map_filter effect rs"

text \<open>The events whose row reached the sink, in order.\<close>

definition delivered :: "report list \<Rightarrow> event list" where
  "delivered rs =
     List.map_filter (\<lambda>r. case effect r of None \<Rightarrow> None | Some _ \<Rightarrow> call r) rs"

text \<open>"The most recently emitted transition was OPEN and no CLOSE has been emitted since."\<close>

definition open_pending :: "event list \<Rightarrow> bool" where
  "open_pending evs = (case rev evs of [] \<Rightarrow> False | e # _ \<Rightarrow> kind e = ''OPEN'')"

definition is_digit :: "char \<Rightarrow> bool" where
  "is_digit c = (c \<in> set ''0123456789'')"

text \<open>A text matches a picture when it has the picture's length and characters, with a
  digit wherever the picture has \<open>#\<close>.\<close>

fun matches :: "string \<Rightarrow> string \<Rightarrow> bool" where
  "matches [] [] = True"
| "matches (p # ps) (c # cs) = ((if p = CHR ''#'' then is_digit c else c = p) \<and> matches ps cs)"
| "matches _ _ = False"

definition is_timestamp :: "string \<Rightarrow> bool" where
  "is_timestamp s = matches ''####-##-## ##:##:## UTC'' s"

text \<open>An optional minus sign, one digit or more, a point, one digit.\<close>

definition is_one_decimal :: "string \<Rightarrow> bool" where
  "is_one_decimal s =
     (let m = (case s of [] \<Rightarrow> s | c # r \<Rightarrow> if c = CHR ''-'' then r else s)
      in 3 \<le> length m \<and> list_all is_digit (take (length m - 2) m)
         \<and> m ! (length m - 2) = CHR ''.'' \<and> is_digit (last m))"

text \<open>The number a decimal text denotes: the digits before the point, the digits after
  it, and the sign.\<close>

definition digit_value :: "char \<Rightarrow> nat" where
  "digit_value c = length (takeWhile (\<lambda>d. d \<noteq> c) ''0123456789'')"

definition digits_value :: "string \<Rightarrow> nat" where
  "digits_value ds = foldl (\<lambda>a c. 10 * a + digit_value c) 0 ds"

definition decimal_value :: "string \<Rightarrow> real" where
  "decimal_value s =
     (let m = (case s of [] \<Rightarrow> s | c # r \<Rightarrow> if c = CHR ''-'' then r else s);
          whole = takeWhile (\<lambda>c. c \<noteq> CHR ''.'') m;
          frac = drop (Suc (length whole)) m;
          v = real (digits_value whole) + real (digits_value frac) / 10 ^ length frac
      in if m = s then v else - v)"

text \<open>The exact length in minutes of the interval from \<open>a\<close> to \<open>b\<close>: its seconds
  divided by 60.\<close>

definition minutes_between :: "datetime \<Rightarrow> datetime \<Rightarrow> real" where
  "minutes_between a b = real_of_int (datetime_sub b a) / 1000000 / 60"

text \<open>Moments of 1 March 2024, for the examples.\<close>

definition clock :: "int \<Rightarrow> int \<Rightarrow> int \<Rightarrow> datetime" where
  "clock h m s = \<lparr>year = 2024, month = 3, day = 1, hour = h, minute = m, second = s,
                  microsecond = 0\<rparr>"


section \<open>Properties\<close>

declare str_nat.simps [simp del]

subsection \<open>Rounding to the nearest double\<close>

declare bit_length.simps [simp del]

lemma bit_length_0: "bit_length 0 = 0"
  by (subst bit_length.simps) simp

lemma bit_length_pos: "0 < n \<Longrightarrow> bit_length n = Suc (bit_length (n div 2))"
  by (subst bit_length.simps) simp

lemma bit_length_gt_0: "0 < n \<Longrightarrow> 0 < bit_length n"
  by (subst bit_length.simps) simp

lemma bit_length_bounds:
  "0 < n \<Longrightarrow> 2 ^ (bit_length n - 1) \<le> n \<and> n < 2 ^ bit_length n"
proof (induction n rule: bit_length.induct)
  case (1 n)
  show ?case
  proof (cases "n div 2 = 0")
    case True
    with 1 have "n = 1" by linarith
    then show ?thesis by (simp add: bit_length_pos bit_length_0)
  next
    case False
    then have pos: "0 < n div 2" by simp
    with 1 have ih: "2 ^ (bit_length (n div 2) - 1) \<le> n div 2"
      "n div 2 < 2 ^ bit_length (n div 2)"
      by simp_all
    from pos have bl: "0 < bit_length (n div 2)" by (rule bit_length_gt_0)
    have eq: "bit_length n = Suc (bit_length (n div 2))"
      using 1 by (subst bit_length.simps) simp
    have "(2::nat) ^ (bit_length n - 1) = 2 * 2 ^ (bit_length (n div 2) - 1)"
      using bl eq by (cases "bit_length (n div 2)") simp_all
    also have "\<dots> \<le> 2 * (n div 2)" using ih(1) by simp
    also have "\<dots> \<le> n" by simp
    finally have lo: "2 ^ (bit_length n - 1) \<le> n" .
    have "n < 2 * (n div 2) + 2" by linarith
    also have "\<dots> \<le> 2 * 2 ^ bit_length (n div 2)" using ih(2) by simp
    finally have "n < 2 ^ bit_length n" using eq by simp
    with lo show ?thesis by simp
  qed
qed

lemma round_half_even_error: "\<bar>of_int (round_half_even t) - t\<bar> \<le> 1 / 2"
proof -
  have "of_int \<lfloor>t\<rfloor> \<le> t" and "t < of_int \<lfloor>t\<rfloor> + 1" by linarith+
  then show ?thesis
    by (auto simp add: round_half_even_def Let_def)
qed

lemma round_half_even_nonneg: "0 \<le> t \<Longrightarrow> 0 \<le> round_half_even t"
  by (auto simp add: round_half_even_def Let_def)

lemma pow2_le_nat: "2 ^ k \<le> (n::nat) \<Longrightarrow> (2::real) ^ k \<le> real n"
proof -
  assume "2 ^ k \<le> n"
  then have "real (2 ^ k) \<le> real n" by (simp only: of_nat_le_iff)
  then show ?thesis by simp
qed

lemma exponent_ge_1:
  assumes "1 \<le> y"
  shows "2 powi exponent y \<le> y"
proof -
  let ?n = "nat \<lfloor>y\<rfloor>"
  from assms have pos: "0 < ?n" by simp
  from bit_length_bounds [OF pos] have "2 ^ (bit_length ?n - 1) \<le> ?n" by simp
  then have "(2::real) ^ (bit_length ?n - 1) \<le> real ?n" by (rule pow2_le_nat)
  also have "real ?n \<le> y" using assms by simp
  finally have le: "(2::real) ^ (bit_length ?n - 1) \<le> y" .
  from pos have "0 < bit_length ?n" by (rule bit_length_gt_0)
  then obtain k where k: "bit_length ?n = Suc k" by (auto dest: gr0_implies_Suc)
  have "exponent y = int (bit_length ?n) - 1" using assms by (simp add: exponent_def)
  with k have "exponent y = int k" by simp
  then have "2 powi exponent y = (2::real) ^ k" by simp
  with le k show ?thesis by simp
qed

lemma exponent_lt_1:
  assumes "0 < y" and "y < 1"
  shows "2 powi exponent y \<le> y"
proof -
  let ?n = "nat \<lfloor>1 / y\<rfloor>"
  let ?k = "bit_length ?n - 1"
  from assms have big: "1 < 1 / y" by simp
  then have pos: "0 < ?n" by simp
  from pos have "0 < bit_length ?n" by (rule bit_length_gt_0)
  then have suc: "bit_length ?n = Suc ?k" by simp
  from bit_length_bounds [OF pos] have "?n < 2 ^ bit_length ?n" by simp
  with suc have "?n < 2 ^ Suc ?k" by simp
  then have "2 ^ Suc ?k \<ge> ?n + 1" by simp
  then have "real (?n + 1) \<le> real (2 ^ Suc ?k)" by (simp only: of_nat_le_iff)
  then have up: "real ?n + 1 \<le> 2 ^ Suc ?k" by simp
  have "1 / y < real_of_int \<lfloor>1 / y\<rfloor> + 1" by linarith
  also have "real_of_int \<lfloor>1 / y\<rfloor> = real ?n"
  proof -
    from big have "0 \<le> \<lfloor>1 / y\<rfloor>" by linarith
    then show ?thesis by simp
  qed
  finally have "1 / y < 2 ^ Suc ?k" using up by linarith
  then have "1 < y * 2 ^ Suc ?k" using assms(1) by (simp add: field_simps)
  then have lo: "1 / 2 ^ Suc ?k < y" by (simp add: field_simps)
  show ?thesis
  proof (cases "y * 2 ^ ?k = 1")
    case True
    then have y: "y = 1 / 2 ^ ?k" by (simp add: field_simps)
    from True assms(2) have "exponent y = - int ?k" by (simp add: exponent_def Let_def)
    then have "2 powi exponent y = 1 / (2::real) ^ ?k"
      by (simp add: power_int_minus field_simps)
    with y show ?thesis by simp
  next
    case False
    with assms(2) have "exponent y = - int (Suc ?k)" by (simp add: exponent_def Let_def)
    then have "2 powi exponent y = 1 / (2::real) ^ Suc ?k"
      by (simp only: power_int_minus power_int_of_nat inverse_eq_divide)
    with lo show ?thesis by simp
  qed
qed

lemma exponent_lower: "0 < y \<Longrightarrow> 2 powi exponent y \<le> y"
  using exponent_ge_1 [of y] exponent_lt_1 [of y] by (cases "1 \<le> y") simp_all

text \<open>One rounding changes a number by at most the fraction \<open>1 / 2 ^ 53\<close> of it.\<close>

lemma round_double_error: "\<bar>round_double x - x\<bar> \<le> \<bar>x\<bar> / 2 ^ 53"
proof (cases "x = 0")
  case True
  then show ?thesis by (simp add: round_double_def)
next
  case False
  define u :: real where "u = 2 powi (exponent \<bar>x\<bar> - 52)"
  define t where "t = x / u"
  have u: "0 < u" by (simp add: u_def)
  have x: "x = t * u" using u by (simp add: t_def)
  have rd: "round_double x = of_int (round_half_even t) * u"
    using False by (simp add: round_double_def Let_def u_def t_def)
  have "round_double x - x = of_int (round_half_even t) * u - x"
    by (simp only: rd)
  also have "\<dots> = of_int (round_half_even t) * u - t * u"
    by (subst x) (rule refl)
  finally have "round_double x - x = (of_int (round_half_even t) - t) * u"
    by (simp add: algebra_simps)
  then have "\<bar>round_double x - x\<bar> = \<bar>of_int (round_half_even t) - t\<bar> * u"
    using u by (simp add: abs_mult)
  also have "\<dots> \<le> 1 / 2 * u"
    using round_half_even_error [of t] u by (rule mult_right_mono [OF _ less_imp_le])
  also have "1 / 2 * u = 2 powi exponent \<bar>x\<bar> / 2 ^ 53"
    by (simp add: u_def power_int_diff)
  also have "\<dots> \<le> \<bar>x\<bar> / 2 ^ 53"
    using exponent_lower [of "\<bar>x\<bar>"] False by (intro divide_right_mono) simp_all
  finally show ?thesis .
qed

lemma two_roundings:
  fixes x s d :: real
  assumes "\<bar>s - x\<bar> \<le> \<bar>x\<bar> / 2 ^ 53" and "\<bar>d - s / 60\<bar> \<le> \<bar>s / 60\<bar> / 2 ^ 53"
  shows "\<bar>d - x / 60\<bar> \<le> \<bar>x / 60\<bar> / 2 ^ 51"
  using assms by (simp add: abs_if split: if_splits)

lemma minutes_error:
  "\<bar>float_truediv (total_seconds td) 60 - real_of_int td / 1000000 / 60\<bar>
   \<le> \<bar>real_of_int td / 1000000 / 60\<bar> / 2 ^ 51"
proof -
  let ?x = "real_of_int td / 1000000"
  have "\<bar>round_double (round_double ?x / 60) - ?x / 60\<bar> \<le> \<bar>?x / 60\<bar> / 2 ^ 51"
    by (rule two_roundings [OF round_double_error round_double_error])
  then show ?thesis
    by (simp only: total_seconds_def float_truediv_def int_truediv_def of_int_numeral)
qed

subsection \<open>Decimal text and timestamps\<close>

lemma is_digit_digit_char: "is_digit (digit_char n)"
proof -
  have "n mod 10 < length ''0123456789''" by simp
  then show ?thesis
    unfolding is_digit_def digit_char_def by (rule nth_mem)
qed

lemma str_nat_one_digit: "n < 10 \<Longrightarrow> str_nat n = [digit_char n]"
  by (subst str_nat.simps) simp

lemma str_nat_more_digits: "10 \<le> n \<Longrightarrow> str_nat n = str_nat (n div 10) @ [digit_char n]"
  by (subst str_nat.simps) simp

lemma digit_char_0: "digit_char 0 = CHR ''0''"
  by (simp add: digit_char_def)

lemma zfill_2:
  assumes "n < 100"
  shows "zfill 2 (str_nat n) = [digit_char (n div 10), digit_char n]"
proof (cases "n < 10")
  case True
  then show ?thesis by (simp add: str_nat_one_digit zfill_def digit_char_0)
next
  case False
  with assms have "n div 10 < 10" by simp
  with False show ?thesis by (simp add: str_nat_more_digits str_nat_one_digit zfill_def)
qed

lemma zfill_4:
  assumes "1000 \<le> n" and "n < 10000"
  shows "zfill 4 (str_nat n)
         = [digit_char (n div 1000), digit_char (n div 100), digit_char (n div 10), digit_char n]"
proof -
  have a: "str_nat n = str_nat (n div 10) @ [digit_char n]"
    using assms by (simp add: str_nat_more_digits)
  have b: "str_nat (n div 10) = str_nat (n div 100) @ [digit_char (n div 10)]"
    using assms by (simp add: str_nat_more_digits div_mult2_eq [symmetric])
  have c: "str_nat (n div 100) = str_nat (n div 1000) @ [digit_char (n div 100)]"
    using assms by (simp add: str_nat_more_digits div_mult2_eq [symmetric])
  have d: "str_nat (n div 1000) = [digit_char (n div 1000)]"
    using assms by (simp add: str_nat_one_digit)
  show ?thesis by (simp add: a b c d zfill_def)
qed

lemma days_in_month_le: "days_in_month y m \<le> 31"
proof (cases "1 \<le> m \<and> m \<le> 12")
  case True
  let ?tbl = "[31, 28, 31, 30, 31, 30, 31, 31, 30, 31, 30, 31] :: int list"
  have "length ?tbl = 12" by simp
  with True have "nat (m - 1) < length ?tbl" by linarith
  then have "?tbl ! nat (m - 1) \<in> set ?tbl" by (rule nth_mem)
  then have "?tbl ! nat (m - 1) \<le> 31" by auto
  then show ?thesis by (simp add: days_in_month_def)
next
  case False
  then show ?thesis by (auto simp add: days_in_month_def)
qed

lemma strftime_is_timestamp:
  assumes "valid_datetime d"
  shows "is_timestamp (strftime d)"
proof -
  have y: "1000 \<le> nat (year d)" "nat (year d) < 10000"
    and m: "nat (month d) < 100" and dd: "nat (day d) < 100"
    and h: "nat (hour d) < 100" and mi: "nat (minute d) < 100" and s: "nat (second d) < 100"
    using assms days_in_month_le [of "year d" "month d"] by (auto simp add: valid_datetime_def)
  show ?thesis
    unfolding strftime_def is_timestamp_def
    by (simp add: zfill_4 [OF y] zfill_2 [OF m] zfill_2 [OF dd] zfill_2 [OF h] zfill_2 [OF mi]
        zfill_2 [OF s] is_digit_digit_char)
qed

lemma str_nat_digits: "str_nat n \<noteq> [] \<and> list_all is_digit (str_nat n)"
proof (induction n rule: str_nat.induct)
  case (1 n)
  show ?case
  proof (cases "n < 10")
    case True
    then show ?thesis by (simp add: str_nat_one_digit is_digit_digit_char)
  next
    case False
    with 1 show ?thesis by (simp add: str_nat_more_digits is_digit_digit_char)
  qed
qed

lemma minus_not_digit: "\<not> is_digit (CHR ''-'')"
  by (simp add: is_digit_def)

lemma digits_point_digit:
  assumes "ds \<noteq> []" and "list_all is_digit ds" and "is_digit c"
  shows "is_one_decimal (ds @ ''.'' @ [c])" and "is_one_decimal (''-'' @ ds @ ''.'' @ [c])"
proof -
  obtain x xs where ds: "ds = x # xs" using assms(1) by (cases ds) auto
  with assms(2) have "x \<noteq> CHR ''-''" using minus_not_digit by auto
  with ds assms show "is_one_decimal (ds @ ''.'' @ [c])"
    by (simp add: is_one_decimal_def nth_append)
  from ds assms show "is_one_decimal (''-'' @ ds @ ''.'' @ [c])"
    by (simp add: is_one_decimal_def nth_append)
qed

lemma format_1f_one_decimal: "is_one_decimal (format_1f x)"
  unfolding format_1f_def Let_def
  using digits_point_digit [OF conjunct1 [OF str_nat_digits] conjunct2 [OF str_nat_digits]
      is_digit_digit_char]
  by simp

lemma digit_value_digit_char: "digit_value (digit_char n) = n mod 10"
proof -
  define k where "k = n mod 10"
  have "k < 10" by (simp add: k_def)
  then have "k = 0 \<or> k = 1 \<or> k = 2 \<or> k = 3 \<or> k = 4 \<or> k = 5 \<or> k = 6 \<or> k = 7 \<or> k = 8 \<or> k = 9"
    by arith
  then have "digit_value (''0123456789'' ! k) = k"
    by (elim disjE) (simp_all add: digit_value_def)
  then show ?thesis by (simp add: digit_char_def k_def)
qed

lemma digits_value_snoc: "digits_value (ds @ [c]) = 10 * digits_value ds + digit_value c"
  by (simp add: digits_value_def)

lemma digits_value_str_nat: "digits_value (str_nat n) = n"
proof (induction n rule: str_nat.induct)
  case (1 n)
  show ?case
  proof (cases "n < 10")
    case True
    then show ?thesis
      by (simp add: str_nat_one_digit digits_value_def digit_value_digit_char)
  next
    case False
    with 1 show ?thesis
      by (simp add: str_nat_more_digits digits_value_snoc digit_value_digit_char)
  qed
qed

lemma point_not_digit: "\<not> is_digit (CHR ''.'')"
  by (simp add: is_digit_def)

lemma decimal_value_unsigned:
  assumes "ds \<noteq> []" and "list_all is_digit ds"
  shows "decimal_value (ds @ ''.'' @ [c])
         = real (digits_value ds) + real (digit_value c) / 10"
proof -
  obtain x xs where ds: "ds = x # xs" using assms(1) by (cases ds) auto
  with assms(2) have x: "x \<noteq> CHR ''-''" using minus_not_digit by auto
  have "\<forall>d \<in> set ds. d \<noteq> CHR ''.''"
    using assms(2) point_not_digit by (auto simp add: list_all_iff)
  then have tw: "takeWhile (\<lambda>c. c \<noteq> CHR ''.'') (ds @ ''.'' @ [c]) = ds"
    by (simp add: takeWhile_append2)
  have m: "(case ds @ ''.'' @ [c] of [] \<Rightarrow> ds @ ''.'' @ [c]
            | a # r \<Rightarrow> if a = CHR ''-'' then r else ds @ ''.'' @ [c]) = ds @ ''.'' @ [c]"
    using ds x by simp
  show ?thesis
    unfolding decimal_value_def m Let_def tw
    by (simp add: digits_value_def)
qed

lemma decimal_value_signed:
  assumes "ds \<noteq> []" and "list_all is_digit ds"
  shows "decimal_value (''-'' @ ds @ ''.'' @ [c])
         = - (real (digits_value ds) + real (digit_value c) / 10)"
proof -
  have "\<forall>d \<in> set ds. d \<noteq> CHR ''.''"
    using assms(2) point_not_digit by (auto simp add: list_all_iff)
  then have tw: "takeWhile (\<lambda>c. c \<noteq> CHR ''.'') (ds @ ''.'' @ [c]) = ds"
    by (simp add: takeWhile_append2)
  have m: "(case ''-'' @ ds @ ''.'' @ [c] of [] \<Rightarrow> ''-'' @ ds @ ''.'' @ [c]
            | a # r \<Rightarrow> if a = CHR ''-'' then r else ''-'' @ ds @ ''.'' @ [c])
           = ds @ ''.'' @ [c]"
    by simp
  show ?thesis
    unfolding decimal_value_def m Let_def tw
    by (simp add: digits_value_def)
qed

lemma decimal_value_format_1f:
  "decimal_value (format_1f x)
   = (if x < 0 then - 1 else 1) * real (nat (round_half_even (\<bar>x\<bar> * 10))) / 10"
proof -
  let ?t = "nat (round_half_even (\<bar>x\<bar> * 10))"
  have d: "str_nat (?t div 10) \<noteq> []" "list_all is_digit (str_nat (?t div 10))"
    using str_nat_digits by simp_all
  have v: "real (digits_value (str_nat (?t div 10))) + real (digit_value (digit_char ?t)) / 10
           = real ?t / 10"
  proof -
    have "real ?t = real (10 * (?t div 10) + ?t mod 10)" by simp
    also have "\<dots> = 10 * real (?t div 10) + real (?t mod 10)"
      by (simp only: of_nat_add of_nat_mult of_nat_numeral)
    finally show ?thesis
      by (simp add: digits_value_str_nat digit_value_digit_char)
  qed
  show ?thesis
  proof (cases "x < 0")
    case True
    then have f: "format_1f x = ''-'' @ str_nat (?t div 10) @ ''.'' @ [digit_char ?t]"
      by (simp add: format_1f_def Let_def)
    show ?thesis
      unfolding f decimal_value_signed [OF d] v using True by simp
  next
    case False
    then have f: "format_1f x = str_nat (?t div 10) @ ''.'' @ [digit_char ?t]"
      by (simp add: format_1f_def Let_def)
    show ?thesis
      unfolding f decimal_value_unsigned [OF d] v using False by simp
  qed
qed

text \<open>The text \<^verbatim>\<open>f"{x:.1f}"\<close> denotes a number within \<open>0.05\<close> of \<open>x\<close>.\<close>

lemma format_1f_value_error: "\<bar>decimal_value (format_1f x) - x\<bar> \<le> 1 / 20"
proof -
  let ?r = "round_half_even (\<bar>x\<bar> * 10)"
  have "0 \<le> ?r" by (rule round_half_even_nonneg) simp
  then have r: "real (nat ?r) = of_int ?r" by simp
  have e: "\<bar>of_int ?r - \<bar>x\<bar> * 10\<bar> \<le> 1 / 2" by (rule round_half_even_error)
  show ?thesis
    using e by (simp add: decimal_value_format_1f r abs_if split: if_splits)
qed

lemma format_1f_value_error_scaled: "\<bar>decimal_value (format_1f x) - x\<bar> * 20 \<le> 1"
  using format_1f_value_error [of x] by simp

subsection \<open>Runs of the loop\<close>

lemma failed_polls_keep_state:
  "fst (iterations dry_run st (replicate n UpdateRaises)) = st"
  by (induction n) (auto simp add: poll_iteration_def split: prod.splits)

lemma length_iterations: "length (snd (iterations dry_run st es)) = length es"
  by (induction es arbitrary: st) (simp_all add: case_prod_beta)

lemma emitted_Cons:
  "emitted (r # rs) = (case call r of None \<Rightarrow> emitted rs | Some e \<Rightarrow> e # emitted rs)"
  by (simp add: emitted_def split: option.splits)

lemma emitted_Nil: "emitted [] = []"
  by (simp add: emitted_def)

lemma open_pending_snoc: "open_pending (evs @ [e]) = (kind e = ''OPEN'')"
  by (simp add: open_pending_def)

lemma quiet_iteration_keeps_open_time:
  assumes "call (snd (poll_iteration dry_run e st)) = None"
  shows "last_open_time (fst (poll_iteration dry_run e st)) = last_open_time st"
  using assms
  by (auto simp add: poll_iteration_def raised_def recorded_def silent_def Let_def
      split: env.splits sum.splits if_splits)

lemma quiet_iterations_keep_open_time:
  assumes "emitted (snd (iterations dry_run st es)) = []"
  shows "last_open_time (fst (iterations dry_run st es)) = last_open_time st"
  using assms
proof (induction es arbitrary: st)
  case Nil
  then show ?case by simp
next
  case (Cons e es)
  obtain st1 r where step: "poll_iteration dry_run e st = (st1, r)"
    by (cases "poll_iteration dry_run e st")
  obtain st2 rs where rest: "iterations dry_run st1 es = (st2, rs)"
    by (cases "iterations dry_run st1 es")
  from Cons.prems step rest have q: "call r = None" and e: "emitted rs = []"
    by (auto simp add: emitted_Cons split: option.splits)
  from q step have "last_open_time st1 = last_open_time st"
    using quiet_iteration_keeps_open_time [of dry_run e st] by simp
  moreover from e rest have "last_open_time st2 = last_open_time st1"
    using Cons.IH [of st1] by simp
  ultimately show ?case using step rest by simp
qed

lemma iteration_keeps_pending:
  assumes "caught (snd (poll_iteration dry_run e st)) \<noteq> Some SinkWriteError"
    and "(last_open_time st \<noteq> None) = open_pending evs"
  shows "(last_open_time (fst (poll_iteration dry_run e st)) \<noteq> None)
         = open_pending (evs @ emitted [snd (poll_iteration dry_run e st)])"
  using assms
  by (auto simp add: poll_iteration_def raised_def recorded_def silent_def Let_def
      append_row_def emitted_Cons emitted_Nil open_pending_snoc
      split: env.splits sum.splits if_splits worksheet.splits)

lemma iterations_keep_pending:
  assumes "\<forall>r \<in> set (snd (iterations dry_run st es)). caught r \<noteq> Some SinkWriteError"
    and "(last_open_time st \<noteq> None) = open_pending evs"
  shows "(last_open_time (fst (iterations dry_run st es)) \<noteq> None)
         = open_pending (evs @ emitted (snd (iterations dry_run st es)))"
  using assms
proof (induction es arbitrary: st evs)
  case Nil
  then show ?case by (simp add: emitted_Nil)
next
  case (Cons e es)
  obtain st1 r where step: "poll_iteration dry_run e st = (st1, r)"
    by (cases "poll_iteration dry_run e st")
  obtain st2 rs where rest: "iterations dry_run st1 es = (st2, rs)"
    by (cases "iterations dry_run st1 es")
  from Cons.prems(1) step rest have ok: "caught r \<noteq> Some SinkWriteError"
    and oks: "\<forall>r \<in> set rs. caught r \<noteq> Some SinkWriteError" by auto
  from ok step Cons.prems(2)
  have "(last_open_time st1 \<noteq> None) = open_pending (evs @ emitted [r])"
    using iteration_keeps_pending [of dry_run e st evs] by simp
  with oks rest
  have "(last_open_time st2 \<noteq> None) = open_pending ((evs @ emitted [r]) @ emitted rs)"
    using Cons.IH [of st1 "evs @ emitted [r]"] by simp
  moreover have "emitted (r # rs) = emitted [r] @ emitted rs"
    by (simp add: emitted_Cons emitted_Nil split: option.splits)
  ultimately show ?case using step rest by simp
qed


subsection \<open>Evaluating the examples\<close>

lemma strftime_clock:
  assumes "0 \<le> h" "h < 100" "0 \<le> m" "m < 100" "0 \<le> s" "s < 100"
  shows "strftime (clock h m s)
    = ''2024-03-01 '' @ [digit_char (nat h div 10), digit_char (nat h), CHR '':'',
         digit_char (nat m div 10), digit_char (nat m), CHR '':'',
         digit_char (nat s div 10), digit_char (nat s)] @ '' UTC''"
proof -
  have a: "nat h < 100" "nat m < 100" "nat s < 100" using assms by simp_all
  show ?thesis
    by (simp add: strftime_def clock_def zfill_2 [OF a(1)] zfill_2 [OF a(2)] zfill_2 [OF a(3)]
        zfill_4 zfill_2 digit_char_def)
qed

lemma strftime_examples:
  "strftime (clock 12 0 0) = ''2024-03-01 12:00:00 UTC''"
  "strftime (clock 12 0 30) = ''2024-03-01 12:00:30 UTC''"
  "strftime (clock 12 1 0) = ''2024-03-01 12:01:00 UTC''"
  "strftime (clock 12 1 3) = ''2024-03-01 12:01:03 UTC''"
  "strftime (clock 12 1 30) = ''2024-03-01 12:01:30 UTC''"
  "strftime (clock 12 10 0) = ''2024-03-01 12:10:00 UTC''"
  "strftime (clock 12 10 30) = ''2024-03-01 12:10:30 UTC''"
  by (simp_all add: strftime_clock digit_char_def)

lemma timedelta_examples:
  "datetime_sub (clock 12 10 0) (clock 12 1 0) = 540000000"
  "datetime_sub (clock 12 10 0) (clock 12 1 30) = 510000000"
  "datetime_sub (clock 12 1 3) (clock 12 1 0) = 3000000"
  by (simp_all add: datetime_sub_def toordinal_def clock_def)

lemmas float_eval = total_seconds_def float_truediv_def int_truediv_def round_double_def
  exponent_def round_half_even_def bit_length.simps Let_def

lemma duration_examples:
  "float_truediv (total_seconds 540000000) 60 = 9"
  "float_truediv (total_seconds 510000000) 60 = 17 / 2"
  "float_truediv (total_seconds 3000000) 60 = 3602879701896397 / 72057594037927936"
  by (simp_all add: float_eval)

lemma nine_minutes: "minutes_between (clock 12 1 0) (clock 12 10 0) = 9"
  by (simp add: minutes_between_def timedelta_examples)

lemma format_examples:
  "format_1f 9 = ''9.0''"
  "format_1f (17 / 2) = ''8.5''"
  "format_1f (3602879701896397 / 72057594037927936) = ''0.1''"
  by (simp_all add: format_1f_def round_half_even_def str_nat_one_digit digit_char_def)

lemma padded_examples:
  "ljust 6 ''OPEN'' = ''OPEN  ''" "ljust 6 ''CLOSE'' = ''CLOSE ''"
  "rjust 6 '''' = ''      ''" "rjust 6 ''9.0'' = ''   9.0''" "rjust 6 ''0.1'' = ''   0.1''"
  by (simp_all add: ljust_def rjust_def eval_nat_numeral)

lemmas run_simps = poll_iteration_def append_row_def initial_def Let_def raised_def
  recorded_def silent_def strftime_examples timedelta_examples duration_examples
  format_examples padded_examples


subsection \<open>The claims\<close>

text \<open>
  C1, as stated: an event whose write to the sheet fails is dropped and never retried. It
  fails on the code. The write happens inside the \<^verbatim>\<open>try\<close>, before
  \<^verbatim>\<open>prev_state = current_state\<close>; the exception skips that assignment, so the next poll of
  the same state is a transition again. Here the door opens once: the write of the OPEN row
  fails at 12:01:00 and an OPEN row is written at 12:01:30.
\<close>

theorem failed_write_counterexample:
  "written (snd (iterations False initial
      [Observed (Some ''closed'') (clock 12 0 0) Accepting,
       Observed (Some ''open'') (clock 12 1 0) Failing,
       Observed (Some ''open'') (clock 12 1 30) Accepting]))
   = [Appended [''2024-03-01 12:01:30 UTC'', ''OPEN'', '''', '''']]
   \<and> map caught (snd (iterations False initial
      [Observed (Some ''closed'') (clock 12 0 0) Accepting,
       Observed (Some ''open'') (clock 12 1 0) Failing,
       Observed (Some ''open'') (clock 12 1 30) Accepting]))
   = [None, Some SinkWriteError, None]"
  by (simp add: run_simps written_def)

text \<open>
  C1, amended: when the write of an event to the sheet fails, the iteration records nothing,
  the exception is caught (the loop goes on) and \<open>prev_state\<close> keeps its value; the next
  successful poll of the same state emits an event of the same kind again, stamped with the
  time of that poll.
\<close>

theorem failed_write_is_retried:
  assumes "\<not> dry_run"
    and "call (snd (poll_iteration dry_run (Observed s t1 Failing) st)) = Some ev"
  shows "caught (snd (poll_iteration dry_run (Observed s t1 Failing) st)) = Some SinkWriteError
       \<and> effect (snd (poll_iteration dry_run (Observed s t1 Failing) st)) = None
       \<and> prev_state (fst (poll_iteration dry_run (Observed s t1 Failing) st)) = prev_state st
       \<and> (\<exists>ev2. call (snd (poll_iteration dry_run (Observed s t2 sheet2)
                          (fst (poll_iteration dry_run (Observed s t1 Failing) st)))) = Some ev2
               \<and> kind ev2 = kind ev \<and> timestamp ev2 = strftime t2)"
  using assms
  by (auto simp add: poll_iteration_def raised_def recorded_def silent_def append_row_def
      Let_def split: sum.splits if_splits worksheet.splits)

theorem failed_write_is_retried_witness:
  "call (snd (poll_iteration False (Observed (Some ''open'') (clock 12 1 0) Failing)
            \<lparr>prev_state = Some ''closed'', last_open_time = None\<rparr>))
   = Some \<lparr>timestamp = ''2024-03-01 12:01:00 UTC'', kind = ''OPEN'', duration_min = None,
           notes = ''''\<rparr>
   \<and> prev_state (fst (poll_iteration False (Observed (Some ''open'') (clock 12 1 0) Failing)
            \<lparr>prev_state = Some ''closed'', last_open_time = None\<rparr>)) = Some ''closed''"
proof -
  let ?st = "\<lparr>prev_state = Some ''closed'', last_open_time = None\<rparr>"
  have c: "call (snd (poll_iteration False (Observed (Some ''open'') (clock 12 1 0) Failing) ?st))
           = Some \<lparr>timestamp = ''2024-03-01 12:01:00 UTC'', kind = ''OPEN'',
                   duration_min = None, notes = ''''\<rparr>"
    by (simp add: run_simps)
  have d: "\<not> False" by simp
  from failed_write_is_retried [OF d c] c show ?thesis by simp
qed

text \<open>
  C2, as stated: in every reachable state \<open>last_open_time\<close> is set if and only if the most
  recently emitted event exists and is an OPEN. It fails on the code after a failed write:
  the CLOSE branch clears \<open>last_open_time\<close> only after \<^verbatim>\<open>append_row\<close> returned (first run:
  the last event emitted is a CLOSE and the open time is still set), and the OPEN branch
  sets it before the call (second run: no event was delivered and the open time is set).
\<close>

theorem open_time_invariant_counterexample:
  "\<not> ((last_open_time (fst (iterations False initial
          [Observed (Some ''closed'') (clock 12 0 0) Accepting,
           Observed (Some ''open'') (clock 12 1 0) Accepting,
           Observed (Some ''closed'') (clock 12 10 0) Failing])) \<noteq> None)
      = open_pending (emitted (snd (iterations False initial
          [Observed (Some ''closed'') (clock 12 0 0) Accepting,
           Observed (Some ''open'') (clock 12 1 0) Accepting,
           Observed (Some ''closed'') (clock 12 10 0) Failing]))))
   \<and> \<not> ((last_open_time (fst (iterations False initial
          [Observed (Some ''closed'') (clock 12 0 0) Accepting,
           Observed (Some ''open'') (clock 12 1 0) Failing])) \<noteq> None)
      = open_pending (delivered (snd (iterations False initial
          [Observed (Some ''closed'') (clock 12 0 0) Accepting,
           Observed (Some ''open'') (clock 12 1 0) Failing]))))"
  by (simp add: run_simps emitted_def delivered_def open_pending_def)

text \<open>
  C2, amended: in every state reached by iterations none of which failed to write to the
  sheet (poll failures allowed; always so in dry-run mode), \<open>last_open_time\<close> is set if and
  only if the most recently emitted event exists and is an OPEN.
\<close>

theorem open_time_set_iff_open_pending:
  assumes "\<forall>r \<in> set (snd (iterations dry_run initial es)). caught r \<noteq> Some SinkWriteError"
  shows "(last_open_time (fst (iterations dry_run initial es)) \<noteq> None)
         = open_pending (emitted (snd (iterations dry_run initial es)))"
  using iterations_keep_pending [OF assms, of "[]"]
  by (simp add: initial_def open_pending_def)

theorem open_time_set_iff_open_pending_witness:
  "map caught (snd (iterations False initial
        [Observed (Some ''closed'') (clock 12 0 0) Accepting, UpdateRaises,
         Observed (Some ''open'') (clock 12 1 0) Accepting])) = [None, Some PollError, None]
   \<and> last_open_time (fst (iterations False initial
        [Observed (Some ''closed'') (clock 12 0 0) Accepting, UpdateRaises,
         Observed (Some ''open'') (clock 12 1 0) Accepting])) = Some (clock 12 1 0)
   \<and> open_pending (emitted (snd (iterations False initial
        [Observed (Some ''closed'') (clock 12 0 0) Accepting, UpdateRaises,
         Observed (Some ''open'') (clock 12 1 0) Accepting])))"
proof -
  let ?es = "[Observed (Some ''closed'') (clock 12 0 0) Accepting, UpdateRaises,
              Observed (Some ''open'') (clock 12 1 0) Accepting]"
  have m: "map caught (snd (iterations False initial ?es)) = [None, Some PollError, None]"
    by (simp add: run_simps)
  have "\<forall>x \<in> set (map caught (snd (iterations False initial ?es))). x \<noteq> Some SinkWriteError"
    unfolding m by simp
  then have h: "\<forall>r \<in> set (snd (iterations False initial ?es)). caught r \<noteq> Some SinkWriteError"
    by simp
  have t: "last_open_time (fst (iterations False initial ?es)) = Some (clock 12 1 0)"
    by (simp add: run_simps)
  from open_time_set_iff_open_pending [OF h] t m show ?thesis by simp
qed




text \<open>
  C4, as stated: the CLOSE event of a CLOSED transition observed at \<open>t_close\<close> carries the
  time since the OPEN transition was observed at \<open>t_open\<close>. It fails on the code when the
  write of the OPEN event failed: the OPEN transition is observed at 12:01:00, its write
  fails, the OPEN event is emitted again at 12:01:30 and \<^verbatim>\<open>last_open_time\<close> is set anew, so
  the CLOSE event of 12:10:00 carries 8.5 minutes and not 9.
\<close>

theorem close_duration_counterexample:
  "map timestamp (emitted (snd (iterations False initial
        [Observed (Some ''closed'') (clock 12 0 0) Accepting,
         Observed (Some ''open'') (clock 12 1 0) Failing,
         Observed (Some ''open'') (clock 12 1 30) Accepting,
         Observed (Some ''closed'') (clock 12 10 0) Accepting])))
   = [''2024-03-01 12:01:00 UTC'', ''2024-03-01 12:01:30 UTC'', ''2024-03-01 12:10:00 UTC'']
   \<and> map kind (emitted (snd (iterations False initial
        [Observed (Some ''closed'') (clock 12 0 0) Accepting,
         Observed (Some ''open'') (clock 12 1 0) Failing,
         Observed (Some ''open'') (clock 12 1 30) Accepting,
         Observed (Some ''closed'') (clock 12 10 0) Accepting])))
   = [''OPEN'', ''OPEN'', ''CLOSE'']
   \<and> map duration_min (emitted (snd (iterations False initial
        [Observed (Some ''closed'') (clock 12 0 0) Accepting,
         Observed (Some ''open'') (clock 12 1 0) Failing,
         Observed (Some ''open'') (clock 12 1 30) Accepting,
         Observed (Some ''closed'') (clock 12 10 0) Accepting])))
   = [None, None, Some (17 / 2)]
   \<and> minutes_between (clock 12 1 0) (clock 12 10 0) = 9"
  by (simp add: run_simps emitted_def nine_minutes)

text \<open>
  C4, amended: for an OPEN event emitted at time \<open>t_open\<close> and a CLOSE event emitted at time
  \<open>t_close\<close> with no event emitted in between, the CLOSE event carries the duration
  \<open>t_close - t_open\<close> in minutes, its seconds divided by 60 in float arithmetic, which is
  within the fraction \<open>1 / 2 ^ 51\<close> of the exact value. (When the write of the OPEN event
  failed and the event was emitted again, \<open>t_open\<close> is the time of the last emission.)
\<close>

theorem close_carries_minutes_since_open:
  assumes "call (snd (poll_iteration dry_run (Observed (Some ''open'') t_open sheet1) st)) \<noteq> None"
    and "emitted (snd (iterations dry_run
           (fst (poll_iteration dry_run (Observed (Some ''open'') t_open sheet1) st)) between))
         = []"
    and "call (snd (poll_iteration dry_run (Observed (Some ''closed'') t_close sheet2)
           (fst (iterations dry_run
              (fst (poll_iteration dry_run (Observed (Some ''open'') t_open sheet1) st))
              between))))
         = Some ev"
  shows "kind ev = ''CLOSE''
       \<and> duration_min ev
           = Some (float_truediv (total_seconds (datetime_sub t_close t_open)) 60)
       \<and> (\<exists>d. duration_min ev = Some d
              \<and> \<bar>d - minutes_between t_open t_close\<bar>
                  \<le> \<bar>minutes_between t_open t_close\<bar> / 2 ^ 51)"
proof -
  let ?st1 = "fst (poll_iteration dry_run (Observed (Some ''open'') t_open sheet1) st)"
  let ?st2 = "fst (iterations dry_run ?st1 between)"
  from assms(1) have "last_open_time ?st1 = Some t_open"
    by (auto simp add: poll_iteration_def raised_def recorded_def silent_def Let_def
        split: sum.splits if_splits)
  with assms(2) have "last_open_time ?st2 = Some t_open"
    using quiet_iterations_keep_open_time [of dry_run ?st1 between] by simp
  with assms(3) have "kind ev = ''CLOSE''
       \<and> duration_min ev
           = Some (float_truediv (total_seconds (datetime_sub t_close t_open)) 60)"
    by (auto simp add: poll_iteration_def raised_def recorded_def silent_def Let_def
        split: sum.splits if_splits)
  then show ?thesis
    using minutes_error [of "datetime_sub t_close t_open"]
    by (simp add: minutes_between_def)
qed

text \<open>The scenario of the specification: closed, closed, open at 60 s, (a failed poll),
  closed at 600 s; the CLOSE event carries 9 minutes.\<close>

theorem close_carries_minutes_since_open_witness:
  "call (snd (poll_iteration False (Observed (Some ''open'') (clock 12 1 0) Accepting)
       (fst (iterations False initial
          [Observed (Some ''closed'') (clock 12 0 0) Accepting,
           Observed (Some ''closed'') (clock 12 0 30) Accepting])))) \<noteq> None
   \<and> call (snd (poll_iteration False (Observed (Some ''closed'') (clock 12 10 0) Accepting)
       (fst (iterations False
          (fst (poll_iteration False (Observed (Some ''open'') (clock 12 1 0) Accepting)
             (fst (iterations False initial
                [Observed (Some ''closed'') (clock 12 0 0) Accepting,
                 Observed (Some ''closed'') (clock 12 0 30) Accepting]))))
          [UpdateRaises]))))
     = Some \<lparr>timestamp = ''2024-03-01 12:10:00 UTC'', kind = ''CLOSE'',
             duration_min = Some 9, notes = ''''\<rparr>
   \<and> minutes_between (clock 12 1 0) (clock 12 10 0) = 9"
proof -
  let ?st = "fst (iterations False initial
          [Observed (Some ''closed'') (clock 12 0 0) Accepting,
           Observed (Some ''closed'') (clock 12 0 30) Accepting])"
  let ?st1 = "fst (poll_iteration False (Observed (Some ''open'') (clock 12 1 0) Accepting) ?st)"
  let ?ev = "\<lparr>timestamp = ''2024-03-01 12:10:00 UTC'', kind = ''CLOSE'',
              duration_min = Some 9, notes = ''''\<rparr>"
  have a: "call (snd (poll_iteration False (Observed (Some ''open'') (clock 12 1 0) Accepting)
             ?st)) \<noteq> None"
    by (simp add: run_simps)
  have b: "emitted (snd (iterations False ?st1 [UpdateRaises])) = []"
    by (simp add: run_simps emitted_def)
  have c: "call (snd (poll_iteration False (Observed (Some ''closed'') (clock 12 10 0) Accepting)
             (fst (iterations False ?st1 [UpdateRaises])))) = Some ?ev"
    by (simp add: run_simps)
  from close_carries_minutes_since_open [OF a b c] a c nine_minutes show ?thesis by simp
qed

text \<open>
  C5: the very first observation, whatever the state observed and however many polls failed
  before it, emits no event; it only sets \<open>prev_state\<close>.
\<close>

theorem first_observation_emits_nothing:
  "poll_iteration dry_run (Observed s now sheet)
     (fst (iterations dry_run initial (replicate n UpdateRaises)))
   = (\<lparr>prev_state = s, last_open_time = None\<rparr>, silent)"
  by (simp add: failed_polls_keep_state poll_iteration_def initial_def)

theorem first_observation_emits_nothing_witness:
  "call (snd (poll_iteration False (Observed (Some ''open'') (clock 9 0 0) Accepting)
     (fst (iterations False initial (replicate 2 UpdateRaises))))) = None"
  using first_observation_emits_nothing [of False "Some ''open''" "clock 9 0 0" Accepting 2]
  by (simp add: silent_def)

text \<open>
  C6, as stated: of two consecutive successful observations of the same state the second
  never emits an event. It fails on the code when the first one's write to the sheet
  failed: \<open>prev_state\<close> was not updated, and the second observation emits the event again.
\<close>

theorem repeated_state_counterexample:
  "map call (snd (iterations False initial
      [Observed (Some ''open'') (clock 12 0 0) Accepting,
       Observed (Some ''closed'') (clock 12 10 0) Failing,
       Observed (Some ''closed'') (clock 12 10 30) Accepting]))
   = [None,
      Some \<lparr>timestamp = ''2024-03-01 12:10:00 UTC'', kind = ''CLOSE'', duration_min = None,
             notes = ''''\<rparr>,
      Some \<lparr>timestamp = ''2024-03-01 12:10:30 UTC'', kind = ''CLOSE'', duration_min = None,
             notes = ''''\<rparr>]"
  by (simp add: run_simps)

text \<open>
  C6, amended: of two consecutive successful observations of the same state, the first of
  which ran without an exception (its write to the sheet, if any, succeeded), the second
  emits no event and leaves the state of the loop unchanged.
\<close>

theorem repeated_state_is_silent:
  assumes "caught (snd (poll_iteration dry_run (Observed s t1 sheet1) st)) = None"
  shows "poll_iteration dry_run (Observed s t2 sheet2)
           (fst (poll_iteration dry_run (Observed s t1 sheet1) st))
         = (fst (poll_iteration dry_run (Observed s t1 sheet1) st), silent)"
  using assms
  by (auto simp add: poll_iteration_def raised_def recorded_def Let_def
      split: sum.splits if_splits)

theorem repeated_state_is_silent_witness:
  "caught (snd (poll_iteration False (Observed (Some ''open'') (clock 12 1 0) Accepting)
      \<lparr>prev_state = Some ''closed'', last_open_time = None\<rparr>)) = None
   \<and> poll_iteration False (Observed (Some ''open'') (clock 12 1 30) Accepting)
       (fst (poll_iteration False (Observed (Some ''open'') (clock 12 1 0) Accepting)
          \<lparr>prev_state = Some ''closed'', last_open_time = None\<rparr>))
     = (\<lparr>prev_state = Some ''open'', last_open_time = Some (clock 12 1 0)\<rparr>, silent)"
proof -
  let ?st = "\<lparr>prev_state = Some ''closed'', last_open_time = None\<rparr>"
  have a: "caught (snd (poll_iteration False (Observed (Some ''open'') (clock 12 1 0) Accepting)
             ?st)) = None"
    by (simp add: run_simps)
  have b: "fst (poll_iteration False (Observed (Some ''open'') (clock 12 1 0) Accepting) ?st)
           = \<lparr>prev_state = Some ''open'', last_open_time = Some (clock 12 1 0)\<rparr>"
    by (simp add: poll_iteration_def append_row_def Let_def)
  from repeated_state_is_silent [OF a, of "clock 12 1 30" Accepting] a b
  show ?thesis by simp
qed

text \<open>
  C7: an iteration whose device query raises leaves \<open>prev_state\<close> and \<open>last_open_time\<close> as
  they were and emits nothing, and the next iteration behaves exactly as it would have
  without the failure.
\<close>

theorem poll_failure_changes_nothing:
  "poll_iteration dry_run UpdateRaises st
     = (st, \<lparr>call = None, effect = None, caught = Some PollError\<rparr>)
   \<and> poll_iteration dry_run e (fst (poll_iteration dry_run UpdateRaises st))
     = poll_iteration dry_run e st"
  by (simp add: poll_iteration_def)

theorem poll_failure_changes_nothing_witness:
  "fst (poll_iteration False UpdateRaises
      \<lparr>prev_state = Some ''open'', last_open_time = Some (clock 12 1 0)\<rparr>)
   = \<lparr>prev_state = Some ''open'', last_open_time = Some (clock 12 1 0)\<rparr>"
  using poll_failure_changes_nothing
    [of False "\<lparr>prev_state = Some ''open'', last_open_time = Some (clock 12 1 0)\<rparr>"]
  by simp

text \<open>
  C8: a CLOSED transition observed while \<open>last_open_time\<close> is \<open>None\<close> emits a CLOSE event
  whose duration is \<open>None\<close>.
\<close>

theorem close_without_open_has_no_duration:
  assumes "prev_state st = Some p" and "p \<noteq> ''closed''" and "last_open_time st = None"
  shows "call (snd (poll_iteration dry_run (Observed (Some ''closed'') now sheet) st))
         = Some \<lparr>timestamp = strftime now, kind = ''CLOSE'', duration_min = None,
                 notes = ''''\<rparr>"
  using assms
  by (auto simp add: poll_iteration_def raised_def recorded_def Let_def split: sum.splits)

theorem close_without_open_has_no_duration_witness:
  "prev_state (fst (iterations True initial
       [Observed (Some ''open'') (clock 12 0 0) Accepting])) = Some ''open''
   \<and> ''open'' \<noteq> ''closed''
   \<and> last_open_time (fst (iterations True initial
       [Observed (Some ''open'') (clock 12 0 0) Accepting])) = None
   \<and> effect (snd (poll_iteration True (Observed (Some ''closed'') (clock 12 10 0) Accepting)
        (fst (iterations True initial [Observed (Some ''open'') (clock 12 0 0) Accepting]))))
     = Some (Printed ''[DRY RUN]  2024-03-01 12:10:00 UTC  CLOSE   dur=       min  notes='')"
proof -
  let ?st = "fst (iterations True initial [Observed (Some ''open'') (clock 12 0 0) Accepting])"
  have a: "prev_state ?st = Some ''open''" by (simp add: run_simps)
  have b: "''open'' \<noteq> ''closed''" by simp
  have c: "last_open_time ?st = None" by (simp add: run_simps)
  have d: "effect (snd (poll_iteration True
                (Observed (Some ''closed'') (clock 12 10 0) Accepting) ?st))
     = Some (Printed ''[DRY RUN]  2024-03-01 12:10:00 UTC  CLOSE   dur=       min  notes='')"
    by (simp add: run_simps)
  from close_without_open_has_no_duration [OF a b c, of True "clock 12 10 0" Accepting] a b c d
  show ?thesis by simp
qed

text \<open>
  C9: every row recorded has a timestamp of the form \<^verbatim>\<open>YYYY-MM-DD HH:MM:SS UTC\<close>, the kind
  \<^verbatim>\<open>OPEN\<close> or \<^verbatim>\<open>CLOSE\<close>, the duration with exactly one decimal when there is one (the
  text \<^verbatim>\<open>f"{duration_min:.1f}"\<close> of the float, a number within 0.05 of it) and the empty
  text when there is none, and the notes; the sheet receives these four fields as a row,
  and dry-run mode prints the same four in one line.
\<close>

theorem row_shape:
  assumes "valid_datetime now"
    and "effect (snd (poll_iteration dry_run (Observed s now sheet) st)) = Some eff"
  shows "\<exists>ev dur. call (snd (poll_iteration dry_run (Observed s now sheet) st)) = Some ev
           \<and> timestamp ev = strftime now \<and> is_timestamp (timestamp ev)
           \<and> (kind ev = ''OPEN'' \<or> kind ev = ''CLOSE'') \<and> notes ev = ''''
           \<and> (case duration_min ev of
                 None \<Rightarrow> dur = ''''
               | Some d \<Rightarrow> dur = format_1f d \<and> is_one_decimal dur
                            \<and> \<bar>decimal_value dur - d\<bar> \<le> 1 / 20)
           \<and> eff = (if dry_run
                    then Printed (''[DRY RUN]  '' @ timestamp ev @ ''  '' @ ljust 6 (kind ev)
                                  @ ''  dur='' @ rjust 6 dur @ '' min  notes='' @ notes ev)
                    else Appended [timestamp ev, kind ev, dur, notes ev])"
  using assms(2) strftime_is_timestamp [OF assms(1)]
  by (auto simp add: poll_iteration_def raised_def recorded_def silent_def Let_def
      append_row_def format_1f_one_decimal format_1f_value_error_scaled
      split: sum.splits if_splits worksheet.splits option.splits)

text \<open>A door open for three seconds: the float \<^verbatim>\<open>3.0 / 60.0\<close> lies just above 0.05, and
  the row says \<^verbatim>\<open>0.1\<close>.\<close>

theorem row_shape_witness:
  "valid_datetime (clock 12 1 3)
   \<and> effect (snd (poll_iteration False (Observed (Some ''closed'') (clock 12 1 3) Accepting)
        \<lparr>prev_state = Some ''open'', last_open_time = Some (clock 12 1 0)\<rparr>))
     = Some (Appended [''2024-03-01 12:01:03 UTC'', ''CLOSE'', ''0.1'', ''''])
   \<and> is_timestamp ''2024-03-01 12:01:03 UTC'' \<and> is_one_decimal ''0.1''
   \<and> \<bar>decimal_value ''0.1'' - 3602879701896397 / 72057594037927936\<bar> \<le> 1 / 20"
proof -
  let ?st = "\<lparr>prev_state = Some ''open'', last_open_time = Some (clock 12 1 0)\<rparr>"
  let ?e = "Observed (Some ''closed'') (clock 12 1 3) Accepting"
  have v: "valid_datetime (clock 12 1 3)"
    by (simp add: valid_datetime_def clock_def days_in_month_def)
  have e: "effect (snd (poll_iteration False ?e ?st))
           = Some (Appended [''2024-03-01 12:01:03 UTC'', ''CLOSE'', ''0.1'', ''''])"
    by (simp add: run_simps)
  have c: "call (snd (poll_iteration False ?e ?st))
           = Some \<lparr>timestamp = ''2024-03-01 12:01:03 UTC'', kind = ''CLOSE'',
                   duration_min = Some (3602879701896397 / 72057594037927936),
                   notes = ''''\<rparr>"
    by (simp add: run_simps)
  from row_shape [OF v e] c format_examples(3)
  have "is_timestamp ''2024-03-01 12:01:03 UTC'' \<and> is_one_decimal ''0.1''
        \<and> \<bar>decimal_value ''0.1'' - 3602879701896397 / 72057594037927936\<bar> \<le> 1 / 20"
    by auto
  with v e show ?thesis by simp
qed

text \<open>
  C10, as stated: after any polled state outside \<^verbatim>\<open>open\<close> and \<^verbatim>\<open>closed\<close>, the next poll
  that returns \<^verbatim>\<open>open\<close> or \<^verbatim>\<open>closed\<close> emits an event. It fails on the code when the state
  polled is \<^verbatim>\<open>None\<close>: \<^verbatim>\<open>prev_state = current_state\<close> then puts \<^verbatim>\<open>prev_state\<close> back to
  \<^verbatim>\<open>None\<close>, and the next poll counts as a first observation. Here the door is open, then
  reports no state, then is closed: no event at all.
\<close>

theorem intermediate_state_counterexample:
  "map call (snd (iterations False initial
      [Observed (Some ''open'') (clock 12 0 0) Accepting,
       Observed None (clock 12 0 30) Accepting,
       Observed (Some ''closed'') (clock 12 1 0) Accepting]))
   = [None, None, None]
   \<and> prev_state (fst (iterations False initial
      [Observed (Some ''open'') (clock 12 0 0) Accepting,
       Observed None (clock 12 0 30) Accepting])) = None"
  by (simp add: run_simps)

text \<open>
  C10, amended: a polled state that is a text other than \<^verbatim>\<open>open\<close> and \<^verbatim>\<open>closed\<close> emits no
  event and still becomes \<open>prev_state\<close>, so the next poll that returns \<^verbatim>\<open>open\<close> or
  \<^verbatim>\<open>closed\<close> is a transition and emits an event. A polled state \<^verbatim>\<open>None\<close> emits no event
  either and becomes \<open>prev_state\<close> too, so the next poll, whatever it returns, emits no
  event.
\<close>

theorem intermediate_state_becomes_baseline:
  assumes "s \<noteq> ''open''" and "s \<noteq> ''closed''" and "y = ''open'' \<or> y = ''closed''"
  shows "snd (poll_iteration dry_run (Observed (Some s) t1 sheet1) st) = silent
       \<and> prev_state (fst (poll_iteration dry_run (Observed (Some s) t1 sheet1) st)) = Some s
       \<and> last_open_time (fst (poll_iteration dry_run (Observed (Some s) t1 sheet1) st))
           = last_open_time st
       \<and> (\<exists>ev. call (snd (poll_iteration dry_run (Observed (Some y) t2 sheet2)
                         (fst (poll_iteration dry_run (Observed (Some s) t1 sheet1) st))))
                = Some ev
              \<and> kind ev = (if y = ''open'' then ''OPEN'' else ''CLOSE'')
              \<and> timestamp ev = strftime t2)
       \<and> snd (poll_iteration dry_run (Observed None t1 sheet1) st) = silent
       \<and> prev_state (fst (poll_iteration dry_run (Observed None t1 sheet1) st)) = None
       \<and> last_open_time (fst (poll_iteration dry_run (Observed None t1 sheet1) st))
           = last_open_time st
       \<and> snd (poll_iteration dry_run (Observed z t2 sheet2)
                (fst (poll_iteration dry_run (Observed None t1 sheet1) st))) = silent"
  using assms
  by (auto simp add: poll_iteration_def raised_def recorded_def Let_def split: sum.splits)

theorem intermediate_state_becomes_baseline_witness:
  "''closing'' \<noteq> ''open'' \<and> ''closing'' \<noteq> ''closed''
   \<and> map call (snd (iterations False initial
       [Observed (Some ''closed'') (clock 12 0 0) Accepting,
        Observed (Some ''closing'') (clock 12 0 30) Accepting,
        Observed (Some ''closed'') (clock 12 1 0) Accepting]))
     = [None, None,
        Some \<lparr>timestamp = ''2024-03-01 12:01:00 UTC'', kind = ''CLOSE'', duration_min = None,
               notes = ''''\<rparr>]"
proof -
  have a: "''closing'' \<noteq> ''open''" and b: "''closing'' \<noteq> ''closed''" by simp_all
  have c: "''closed'' = ''open'' \<or> ''closed'' = ''closed''" by simp
  have r: "map call (snd (iterations False initial
       [Observed (Some ''closed'') (clock 12 0 0) Accepting,
        Observed (Some ''closing'') (clock 12 0 30) Accepting,
        Observed (Some ''closed'') (clock 12 1 0) Accepting]))
     = [None, None,
        Some \<lparr>timestamp = ''2024-03-01 12:01:00 UTC'', kind = ''CLOSE'', duration_min = None,
               notes = ''''\<rparr>]"
    by (simp add: run_simps)
  from intermediate_state_becomes_baseline [OF a b c] a b r show ?thesis by simp
qed

end
